theory Spec2Isabelle
  imports Main "HOL-Library.Sublist"
begin

section \<open>Findings (utils/shared\_controller.py, class BugInsight)\<close>

text \<open>
  A reading of the wall clock (\<open>datetime.now()\<close>) is a natural number of clock ticks.
\<close>

type_synonym datetime = nat

text \<open>
  The dataclass \<open>BugInsight\<close>. The field \<open>timestamp\<close> has the default \<open>None\<close>, which
  \<open>__post_init__\<close> replaces during construction; the record holds the value the object
  has once the constructor has returned.
\<close>

record BugInsight =
  bug_type :: string
  description :: string
  severity :: string
  file_path :: "string option"
  line_number :: "int option"
  suggested_fix :: "string option"
  timestamp :: datetime

text \<open>
  The generated \<open>__init__\<close> followed by \<open>__post_init__\<close>: the caller may pass a
  timestamp; when it passes none (\<open>None\<close>), the clock reading \<open>now\<close> is stored.
\<close>

definition BugInsight_init ::
  "string \<Rightarrow> string \<Rightarrow> string \<Rightarrow> string option \<Rightarrow> int option \<Rightarrow> string option
     \<Rightarrow> datetime option \<Rightarrow> datetime \<Rightarrow> BugInsight" where
  "BugInsight_init bt d sev fp ln fix ts now =
     \<lparr>bug_type = bt, description = d, severity = sev, file_path = fp, line_number = ln,
      suggested_fix = fix,
      timestamp = (case ts of None \<Rightarrow> now | Some t \<Rightarrow> t)\<rparr>"

section \<open>The primitives of asyncio the controller is built from\<close>

text \<open>
  \<open>asyncio.Event\<close>: a flag and the futures of the coroutines suspended in \<open>wait()\<close>.
  Only their number matters here. \<open>set()\<close> raises the flag and resolves every pending
  future, so that no waiter stays suspended; \<open>clear()\<close> lowers the flag and leaves the
  waiters alone; \<open>wait()\<close> returns at once when the flag is raised and parks the caller
  otherwise.
\<close>

record event =
  ev_flag :: bool
  ev_waiters :: nat

definition Event :: event where
  "Event = \<lparr>ev_flag = False, ev_waiters = 0\<rparr>"

definition ev_set :: "event \<Rightarrow> event" where
  "ev_set e = \<lparr>ev_flag = True, ev_waiters = 0\<rparr>"

definition ev_clear :: "event \<Rightarrow> event" where
  "ev_clear e = e\<lparr>ev_flag := False\<rparr>"

definition is_set :: "event \<Rightarrow> bool" where
  "is_set e = ev_flag e"

datatype wait_outcome = Ready | Parked

definition ev_wait :: "event \<Rightarrow> wait_outcome \<times> event" where
  "ev_wait e = (if ev_flag e then (Ready, e)
                else (Parked, e\<lparr>ev_waiters := Suc (ev_waiters e)\<rparr>))"

text \<open>
  \<open>asyncio.Queue()\<close> without a size bound: a list, oldest element first.
  \<open>put_nowait\<close> cannot fail on an unbounded queue; \<open>get_nowait\<close> raises
  \<open>QueueEmpty\<close> on an empty one.
\<close>

datatype queue_error = QueueEmpty

definition put_nowait :: "'a \<Rightarrow> 'a list \<Rightarrow> 'a list" where
  "put_nowait x q = q @ [x]"

definition get_nowait :: "'a list \<Rightarrow> queue_error + ('a \<times> 'a list)" where
  "get_nowait q = (case q of [] \<Rightarrow> Inl QueueEmpty | x # q' \<Rightarrow> Inr (x, q'))"

definition empty_queue :: "'a list \<Rightarrow> bool" where
  "empty_queue q = (q = [])"

section \<open>The shared controller (utils/shared\_controller.py)\<close>

text \<open>
  An entry of \<open>agent_context\<close>: the dictionary with the keys \<open>type\<close>, \<open>insight\<close> and
  \<open>timestamp\<close>.
\<close>

record 'i context_entry =
  entry_type :: string
  entry_insight :: 'i
  entry_timestamp :: datetime

record 'i SharedController =
  pause_event :: event
  resume_event :: event
  shutdown_event :: event
  insights_queue :: "'i list"
  agent_context :: "'i context_entry list"
  is_paused :: bool
  pause_reason :: "string option"
  agent_turn_count :: int

text \<open>\<open>__init__\<close>: three events, of which the resume event is set at once.\<close>

definition SharedController_init :: "BugInsight SharedController" where
  "SharedController_init =
     \<lparr>pause_event = Event, resume_event = ev_set Event, shutdown_event = Event,
      insights_queue = [], agent_context = [],
      is_paused = False, pause_reason = None, agent_turn_count = 0\<rparr>"

definition request_pause :: "string \<Rightarrow> 'i SharedController \<Rightarrow> 'i SharedController" where
  "request_pause reason c =
     (if \<not> is_paused c
      then c\<lparr>pause_event := ev_set (pause_event c),
             is_paused := True,
             pause_reason := Some reason,
             resume_event := ev_clear (resume_event c)\<rparr>
      else c)"

definition inject_insight ::
  "BugInsight \<Rightarrow> BugInsight SharedController \<Rightarrow> BugInsight SharedController" where
  "inject_insight insight c =
     c\<lparr>insights_queue := put_nowait insight (insights_queue c),
       agent_context := agent_context c @
         [\<lparr>entry_type = ''bug_insight'', entry_insight = insight,
           entry_timestamp = timestamp insight\<rparr>]\<rparr>"

definition request_resume :: "'i SharedController \<Rightarrow> 'i SharedController" where
  "request_resume c =
     (if is_paused c
      then c\<lparr>pause_event := ev_clear (pause_event c),
             is_paused := False,
             pause_reason := None,
             resume_event := ev_set (resume_event c)\<rparr>
      else c)"

text \<open>
  \<open>checkpoint\<close> is a coroutine with one suspension point, the
  \<open>await self.resume_event.wait()\<close> of its pause branch. The call runs up to that point
  without interruption: it either returns there and then (\<open>Returned b\<close>) or parks the
  caller on the resume event (\<open>Suspended\<close>). A parked caller is released by the next
  \<open>set()\<close> of the resume event and then runs the rest of the body, which reads the
  shutdown event in the state it finds at that moment (\<open>checkpoint_resumed\<close>).
\<close>

datatype checkpoint_outcome = Returned bool | Suspended

definition checkpoint ::
  "'i SharedController \<Rightarrow> checkpoint_outcome \<times> 'i SharedController" where
  "checkpoint c =
     (let c1 = c\<lparr>agent_turn_count := agent_turn_count c + 1\<rparr> in
      if is_set (pause_event c1)
      then (case ev_wait (resume_event c1) of
              (Ready, e) \<Rightarrow> (Returned (\<not> is_set (shutdown_event c1)), c1\<lparr>resume_event := e\<rparr>)
            | (Parked, e) \<Rightarrow> (Suspended, c1\<lparr>resume_event := e\<rparr>))
      else (Returned (\<not> is_set (shutdown_event c1)), c1))"

definition checkpoint_resumed :: "'i SharedController \<Rightarrow> bool" where
  "checkpoint_resumed c = (\<not> is_set (shutdown_event c))"

text \<open>
  \<open>get_insights\<close>: the loop takes findings from the queue while it is not empty. There
  is no suspension point in it, so it runs as one step.
\<close>

function get_insights_loop :: "'i list \<Rightarrow> 'i list \<Rightarrow> 'i list \<times> 'i list" where
  "get_insights_loop insights q =
     (if \<not> empty_queue q
      then (case get_nowait q of
              Inr (insight, q') \<Rightarrow> get_insights_loop (insights @ [insight]) q'
            | Inl QueueEmpty \<Rightarrow> (insights, q))
      else (insights, q))"
  by pat_completeness auto
termination
  by (relation "measure (\<lambda>(insights, q). length q)")
     (auto simp: get_nowait_def split: list.splits)

definition get_insights :: "'i SharedController \<Rightarrow> 'i list \<times> 'i SharedController" where
  "get_insights c =
     (case get_insights_loop [] (insights_queue c) of
        (insights, q) \<Rightarrow> (insights, c\<lparr>insights_queue := q\<rparr>))"

definition shutdown :: "'i SharedController \<Rightarrow> 'i SharedController" where
  "shutdown c = c\<lparr>shutdown_event := ev_set (shutdown_event c),
                  resume_event := ev_set (resume_event c)\<rparr>"

declare get_insights_loop.simps [simp del]

text \<open>
  \<open>str.lower()\<close> on characters with code points below 256: the capital letters are
  65 to 90 and 192 to 222 without 215, and the small letter is 32 further on.
\<close>

definition lower_char :: "char \<Rightarrow> char" where
  "lower_char ch = (let n = (of_char ch :: nat) in
                    if (65 \<le> n \<and> n \<le> 90) \<or> (192 \<le> n \<and> n \<le> 222 \<and> n \<noteq> 215)
                    then char_of (n + 32) else ch)"

definition lower :: "string \<Rightarrow> string" where
  "lower s = map lower_char s"

definition newline :: char where
  "newline = CHR 0x0A"

section \<open>Sequences of calls on one controller\<close>

text \<open>
  The public operations of the controller (\<open>get_context_summary\<close> only reads the
  context log and returns a text). Everything runs on one event loop, and no
  operation has a suspension point except \<open>checkpoint\<close>, whose first part (up to its
  return or its suspension) is one step as well; so a run of the system is a sequence of
  calls, each applied to the state the one before has left.
\<close>

datatype 'i call =
    RequestPause string
  | InjectInsight 'i
  | RequestResume
  | Checkpoint
  | GetInsights
  | GetContextSummary
  | Shutdown

fun exec ::
  "BugInsight call \<Rightarrow> BugInsight SharedController \<Rightarrow> BugInsight SharedController" where
  "exec (RequestPause reason) c = request_pause reason c"
| "exec (InjectInsight insight) c = inject_insight insight c"
| "exec RequestResume c = request_resume c"
| "exec Checkpoint c = snd (checkpoint c)"
| "exec GetInsights c = snd (get_insights c)"
| "exec GetContextSummary c = c"
| "exec Shutdown c = shutdown c"

definition run ::
  "BugInsight call list \<Rightarrow> BugInsight SharedController \<Rightarrow> BugInsight SharedController" where
  "run cs c = fold exec cs c"

text \<open>The findings a sequence of calls injects, in the order of the calls.\<close>

fun injected :: "'i call list \<Rightarrow> 'i list" where
  "injected [] = []"
| "injected (InjectInsight insight # cs) = insight # injected cs"
| "injected (_ # cs) = injected cs"

text \<open>
  The pause state is consistent when the flag \<open>is_paused\<close>, the pause event and the
  presence of a pause reason agree and, before shutdown, the resume event is set exactly
  when the controller is not paused.
\<close>

definition pause_consistent :: "'i SharedController \<Rightarrow> bool" where
  "pause_consistent c \<longleftrightarrow>
     (is_paused c \<longleftrightarrow> is_set (pause_event c)) \<and>
     (is_paused c \<longleftrightarrow> pause_reason c \<noteq> None) \<and>
     (\<not> is_set (shutdown_event c) \<longrightarrow> (is_set (resume_event c) \<longleftrightarrow> \<not> is_paused c))"

text \<open>Two findings to run the operations on.\<close>

definition sample_low :: BugInsight where
  "sample_low = BugInsight_init ''todo_comment'' ''TODO/FIXME found: # TODO fix me'' ''low''
                  (Some ''a.py'') (Some 3) (Some ''Address the TODO/FIXME comment'') None 11"

definition sample_high :: BugInsight where
  "sample_high = BugInsight_init ''test_failure'' ''Tests failed: boom'' ''high''
                   None None (Some ''Review test failures and fix implementation'') None 12"

text \<open>
  A coroutine is parked in \<open>checkpoint\<close> when the resume event has a pending waiter:
  \<open>checkpoint\<close> is the only operation that waits on it.
\<close>

definition parked :: "'i SharedController \<Rightarrow> bool" where
  "parked c \<longleftrightarrow> 0 < ev_waiters (resume_event c)"

section \<open>The bug finder's reaction to findings (tools/bug\_finder\_agent.py)\<close>

text \<open>
  Exceptions, as far as the handlers tell them apart: \<open>asyncio.CancelledError\<close>, which
  is a \<open>BaseException\<close> and passes every \<open>except Exception\<close>, and the exceptions that
  are instances of \<open>Exception\<close>, with their message.
\<close>

datatype exn = CancelledError | Exception string

text \<open>
  The loop at the end of \<open>_check_for_bugs\<close>. The bug finder reaches the controller only
  through its methods; none of those it calls returns a value, so what the loop does
  next never depends on the controller, and other tasks may run at each \<open>await\<close>. What
  the loop does is therefore the sequence of its actions: calls on the controller, and
  the one-second sleep between injecting a serious finding and resuming.

  The sleep is the one point of the loop at which the task is suspended, and so the one
  point at which a cancellation of the task (by \<open>AgentOrchestrator.shutdown\<close>) arrives:
  \<open>asyncio.sleep\<close> then raises \<open>CancelledError\<close>, which the \<open>except Exception\<close> of
  \<open>_check_for_bugs\<close> does not catch, and the loop is left.
\<close>

datatype 'i action = Call "'i call" | Sleep nat



text \<open>The calls on the controller among some actions, in order.\<close>

fun calls_of :: "'i action list \<Rightarrow> 'i call list" where
  "calls_of [] = []"
| "calls_of (Call k # as) = k # calls_of as"
| "calls_of (Sleep n # as) = calls_of as"


text \<open>A finding of medium severity for the examples.\<close>

definition sample_medium :: BugInsight where
  "sample_medium = BugInsight_init ''large_file'' ''File is large (10001 bytes): a.py''
                     ''medium'' (Some ''a.py'') None
                     (Some ''Consider breaking into smaller modules'') None 13"

section \<open>Strings as Python handles them\<close>

text \<open>
  A string is a list of characters with code points below 256. \<open>str.isspace()\<close> holds
  for the code points 9 to 13, 28 to 32, 133 and 160 of these, and \<open>str.strip()\<close>
  without argument removes such characters at both ends.
\<close>

definition is_space :: "char \<Rightarrow> bool" where
  "is_space ch = (let n = (of_char ch :: nat) in
                  (9 \<le> n \<and> n \<le> 13) \<or> (28 \<le> n \<and> n \<le> 32) \<or> n = 133 \<or> n = 160)"

definition strip :: "string \<Rightarrow> string" where
  "strip s = rev (dropWhile is_space (rev (dropWhile is_space s)))"

text \<open>
  \<open>s.split(sep, maxsplit)\<close> for a separator of one character: at most \<open>maxsplit\<close> cuts,
  from the left. \<open>s.split(sep)\<close> cuts at every separator; a string has no more
  separators than characters.
\<close>

fun split_max :: "char \<Rightarrow> nat \<Rightarrow> string \<Rightarrow> string list" where
  "split_max sep 0 s = [s]"
| "split_max sep (Suc n) s =
     (if sep \<in> set s
      then takeWhile (\<lambda>ch. ch \<noteq> sep) s # split_max sep n (tl (dropWhile (\<lambda>ch. ch \<noteq> sep) s))
      else [s])"

definition split :: "char \<Rightarrow> string \<Rightarrow> string list" where
  "split sep s = split_max sep (length s) s"

text \<open>\<open>sub in s\<close> for strings: \<open>sub\<close> occurs in \<open>s\<close> as a block.\<close>

fun contains :: "string \<Rightarrow> string \<Rightarrow> bool" where
  "contains sub [] = (sub = [])"
| "contains sub (ch # s) = (prefix sub (ch # s) \<or> contains sub s)"

text \<open>
  \<open>int(s)\<close> for a string. The white space \<open>int\<close> drops around the number is not that
  of \<open>strip\<close>: of the code points below 128 only 9 to 13 and 32 (the separators 28 to
  31 make \<open>int\<close> fail), and 133 and 160 above. One sign may come first, then decimal
  digits, where single underscores may stand between digits. A number of more than
  4300 digits is refused (the default of \<open>sys.set_int_max_str_digits\<close>). Every failure
  is a \<open>ValueError\<close> (\<open>None\<close>).
\<close>

definition is_int_space :: "char \<Rightarrow> bool" where
  "is_int_space ch = (let n = (of_char ch :: nat) in
                      (9 \<le> n \<and> n \<le> 13) \<or> n = 32 \<or> n = 133 \<or> n = 160)"

definition is_digit :: "char \<Rightarrow> bool" where
  "is_digit ch = (let n = (of_char ch :: nat) in 48 \<le> n \<and> n \<le> 57)"

definition digit_value :: "char \<Rightarrow> int" where
  "digit_value ch = int (of_char ch) - 48"

definition max_str_digits :: nat where
  "max_str_digits = 4300"

fun parse_digits :: "string \<Rightarrow> int \<Rightarrow> bool \<Rightarrow> int option" where
  "parse_digits [] acc after_digit = (if after_digit then Some acc else None)"
| "parse_digits (ch # s) acc after_digit =
     (if is_digit ch then parse_digits s (acc * 10 + digit_value ch) True
      else if ch = CHR ''_'' \<and> after_digit then parse_digits s acc False
      else None)"

definition py_int :: "string \<Rightarrow> int option" where
  "py_int s =
     (let t = rev (dropWhile is_int_space (rev (dropWhile is_int_space s))) in
      if length (filter is_digit t) > max_str_digits then None
      else (case t of
              [] \<Rightarrow> None
            | ch # rest \<Rightarrow>
                if ch = CHR ''-'' then map_option uminus (parse_digits rest 0 False)
                else if ch = CHR ''+'' then parse_digits rest 0 False
                else parse_digits (ch # rest) 0 False))"

section \<open>The linters (tools/bug\_finder\_agent.py)\<close>

datatype py_exception = ValueError

text \<open>
  The body of the loop of \<open>_parse_linter_output\<close> for one line of output: no finding for
  an empty line or one with fewer than four fields, \<open>ValueError\<close> when the second or
  the third of four fields is not an integer, one finding otherwise. The finding is
  constructed without a timestamp, so it gets the reading \<open>now\<close> of the clock.
\<close>

definition line_severity :: "string \<Rightarrow> string" where
  "line_severity message =
     (if contains ''error'' (lower message) then ''high''
      else if contains ''warning'' (lower message) then ''medium''
      else ''low'')"

definition parse_linter_line :: "datetime \<Rightarrow> string \<Rightarrow> py_exception + BugInsight option" where
  "parse_linter_line now line =
     (if line \<noteq> []
      then (let parts = split_max (CHR '':'') 3 line in
            if length parts \<ge> 4
            then (let file_path = parts ! 0 in
                  case py_int (parts ! 1) of
                    None \<Rightarrow> Inl ValueError
                  | Some line_num \<Rightarrow>
                      (case py_int (parts ! 2) of
                         None \<Rightarrow> Inl ValueError
                       | Some col_num \<Rightarrow>
                           (let message = strip (parts ! 3);
                                severity = line_severity message
                            in Inr (Some (BugInsight_init ''linting_error'' message severity
                                 (Some file_path) (Some line_num)
                                 (Some (''Fix linting issue: '' @ message)) None now)))))
            else Inr None)
      else Inr None)"

text \<open>
  The loop over the lines. Each finding is constructed while its line is processed and
  takes its timestamp from the clock at that moment: \<open>now j\<close> is the reading of the
  clock while line \<open>j\<close> of the output is processed.
\<close>

fun parse_linter_lines ::
  "(nat \<Rightarrow> datetime) \<Rightarrow> BugInsight list \<Rightarrow> nat \<Rightarrow> string list
     \<Rightarrow> py_exception + BugInsight list" where
  "parse_linter_lines now insights j [] = Inr insights"
| "parse_linter_lines now insights j (line # lines) =
     (case parse_linter_line (now j) line of
        Inl e \<Rightarrow> Inl e
      | Inr None \<Rightarrow> parse_linter_lines now insights (Suc j) lines
      | Inr (Some insight) \<Rightarrow> parse_linter_lines now (insights @ [insight]) (Suc j) lines)"

definition parse_linter_output ::
  "(nat \<Rightarrow> datetime) \<Rightarrow> string \<Rightarrow> string \<Rightarrow> string \<Rightarrow> py_exception + BugInsight list" where
  "parse_linter_output now stdout stderr linter_type =
     (if linter_type = ''python'' \<and> stdout \<noteq> []
      then parse_linter_lines now [] 0 (split newline (strip stdout))
      else Inr [])"

text \<open>
  The workspace as the linters see it: the paths \<open>rglob\<close> finds for each pattern. A
  finished command: \<open>_run_command\<close> catches every failure to start the command and
  returns exit status 1 with empty output in its place, so it always yields one.
\<close>

record workspace =
  py_paths :: "string list"
  js_paths :: "string list"
  ts_paths :: "string list"

record completed_process =
  returncode :: int
  stdout :: string
  stderr :: string

definition linters :: "(string \<times> string list) list" where
  "linters =
     [(''python'', [''python'', ''-m'', ''flake8'', ''--max-line-length=100'']),
      (''javascript'', [''npx'', ''eslint'', ''--format=json'']),
      (''typescript'', [''npx'', ''tsc'', ''--noEmit''])]"

definition find_files_by_type :: "workspace \<Rightarrow> string \<Rightarrow> string list" where
  "find_files_by_type ws file_type =
     (if file_type = ''python'' then py_paths ws
      else if file_type = ''javascript'' then js_paths ws
      else if file_type = ''typescript'' then ts_paths ws
      else [])"

text \<open>
  One round of the loop of \<open>_run_linters\<close>. An exception out of the parser is caught by
  the \<open>try\<close> around the round, before \<open>insights.extend\<close> has run: the round then adds
  nothing. The clock is read while the output of a linter is parsed: \<open>now file_type j\<close>
  is its reading at line \<open>j\<close> of the output of the linter for \<open>file_type\<close>.
\<close>

definition run_linter ::
  "workspace \<Rightarrow> (string list \<Rightarrow> completed_process) \<Rightarrow> (string \<Rightarrow> nat \<Rightarrow> datetime)
     \<Rightarrow> BugInsight list \<Rightarrow> string \<times> string list \<Rightarrow> BugInsight list" where
  "run_linter ws run_command now insights entry =
     (case entry of (file_type, linter_cmd) \<Rightarrow>
        (let files = find_files_by_type ws file_type in
         if files = [] then insights
         else (let result = run_command (linter_cmd @ files) in
               if returncode result \<noteq> 0
               then (case parse_linter_output (now file_type) (stdout result) (stderr result)
                            file_type of
                       Inr found \<Rightarrow> insights @ found
                     | Inl e \<Rightarrow> insights)
               else insights)))"

definition run_linters ::
  "workspace \<Rightarrow> (string list \<Rightarrow> completed_process) \<Rightarrow> (string \<Rightarrow> nat \<Rightarrow> datetime)
     \<Rightarrow> BugInsight list" where
  "run_linters ws run_command now = foldl (run_linter ws run_command now) [] linters"

text \<open>
  Lines of linter output, by what the loop body of \<open>_parse_linter_output\<close> makes of
  them. The fields of a line are what \<open>line.split(':', 3)\<close> returns. A diagnostic line
  has four fields, the second and third of which are integers; a line that breaks the
  parser has four fields too, but \<open>int()\<close> rejects the second or the third. Every other
  line is skipped. \<open>linter_finding\<close> is the finding read off a diagnostic line.
\<close>

definition line_fields :: "string \<Rightarrow> string list" where
  "line_fields line = split_max (CHR '':'') 3 line"

definition diagnostic_line :: "string \<Rightarrow> bool" where
  "diagnostic_line line \<longleftrightarrow>
     line \<noteq> [] \<and> 4 \<le> length (line_fields line)
     \<and> py_int (line_fields line ! 1) \<noteq> None \<and> py_int (line_fields line ! 2) \<noteq> None"

definition breaks_parser :: "string \<Rightarrow> bool" where
  "breaks_parser line \<longleftrightarrow>
     line \<noteq> [] \<and> 4 \<le> length (line_fields line)
     \<and> (py_int (line_fields line ! 1) = None \<or> py_int (line_fields line ! 2) = None)"

definition linter_finding :: "datetime \<Rightarrow> string \<Rightarrow> BugInsight" where
  "linter_finding now line =
     \<lparr>bug_type = ''linting_error'',
      description = strip (line_fields line ! 3),
      severity = line_severity (strip (line_fields line ! 3)),
      file_path = Some (line_fields line ! 0),
      line_number = py_int (line_fields line ! 1),
      suggested_fix = Some (''Fix linting issue: '' @ strip (line_fields line ! 3)),
      timestamp = now\<rparr>"

text \<open>
  The findings of an output whose lines are given: one for each diagnostic line, in
  order, stamped with the reading of the clock at that line.
\<close>

definition linter_findings_of :: "(nat \<Rightarrow> datetime) \<Rightarrow> string list \<Rightarrow> BugInsight list" where
  "linter_findings_of now lines =
     map (\<lambda>(j, line). linter_finding (now j) line)
       (filter (\<lambda>(j, line). diagnostic_line line) (enumerate 0 lines))"

text \<open>A clock for the examples: it advances by one from line to line.\<close>

definition sample_clock :: "string \<Rightarrow> nat \<Rightarrow> datetime" where
  "sample_clock file_type j = 100 + j"

text \<open>A workspace with one JavaScript file, whose linter reports one problem.\<close>

definition js_workspace :: workspace where
  "js_workspace = \<lparr>py_paths = [], js_paths = [''app.js''], ts_paths = []\<rparr>"

definition js_linter :: "string list \<Rightarrow> completed_process" where
  "js_linter cmd = \<lparr>returncode = 1, stdout = ''app.js:1:2: error no-undef'', stderr = []\<rparr>"

text \<open>A workspace with one Python file, on which flake8 reports three problems.\<close>

definition py_workspace :: workspace where
  "py_workspace = \<lparr>py_paths = [''a.py''], js_paths = [], ts_paths = []\<rparr>"

definition flake8_output :: string where
  "flake8_output = ''a.py:1:2: E999 SyntaxError'' @ [newline]
     @ ''a.py:3:4: W605 Warning invalid escape'' @ [newline]
     @ ''summary'' @ [newline]
     @ ''a.py:7:8: E501 line too long'' @ [newline]"

definition flake8 :: "string list \<Rightarrow> completed_process" where
  "flake8 cmd = \<lparr>returncode = 1, stdout = flake8_output, stderr = []\<rparr>"

section \<open>The import scan (tools/bug\_finder\_agent.py, \_check\_missing\_imports)\<close>
































section \<open>The orchestrator (utils/agent\_orchestrator.py)\<close>

text \<open>
  An \<open>asyncio.Task\<close> is pending, or has ended: its coroutine returned, raised, or was
  cancelled. Awaiting a task that has ended returns, or raises what the coroutine raised,
  or raises \<open>CancelledError\<close>.
\<close>

datatype task_end = Finished | Failed exn | Cancelled

datatype task_state = Pending | Ended task_end

definition await_task :: "task_end \<Rightarrow> exn option" where
  "await_task t = (case t of Finished \<Rightarrow> None | Failed e \<Rightarrow> Some e
                   | Cancelled \<Rightarrow> Some CancelledError)"

text \<open>
  How the two tasks end, given how the work inside their \<open>try\<close> block ends (\<open>None\<close>: it
  returns). \<open>BugFinderAgent.run_loop\<close> catches and logs every \<open>Exception\<close> and then
  returns; \<open>AgentOrchestrator._run_coding_agent\<close> logs it and raises it again. Neither
  catches \<open>CancelledError\<close>, and neither does any handler further inside (all of them
  are \<open>except Exception\<close>): a cancellation delivered at any of their suspension points
  ends the task as cancelled.
\<close>

definition run_loop_end :: "exn option \<Rightarrow> task_end" where
  "run_loop_end body =
     (case body of None \<Rightarrow> Finished
      | Some (Exception m) \<Rightarrow> Finished
      | Some CancelledError \<Rightarrow> Cancelled)"

definition run_coding_agent_end :: "exn option \<Rightarrow> task_end" where
  "run_coding_agent_end body =
     (case body of None \<Rightarrow> Finished
      | Some (Exception m) \<Rightarrow> Failed (Exception m)
      | Some CancelledError \<Rightarrow> Cancelled)"

record AgentOrchestrator =
  controller :: "BugInsight SharedController"
  coding_task :: "task_state option"
  bug_finder_task :: "task_state option"
  is_running :: bool

text \<open>
  The pattern of \<open>AgentOrchestrator.shutdown\<close>, for a task that ends as \<open>cancelled_end\<close>
  once the cancellation reaches it:
  \<^verbatim>\<open>if task and not task.done(): task.cancel(); try: await task; except CancelledError: pass\<close>.
  The result is the exception that leaves the pattern, if any, and the task afterwards.
\<close>

definition cancel_and_await :: "task_end \<Rightarrow> task_state option \<Rightarrow> exn option \<times> task_state option" where
  "cancel_and_await cancelled_end task =
     (case task of
        None \<Rightarrow> (None, None)
      | Some (Ended t) \<Rightarrow> (None, Some (Ended t))
      | Some Pending \<Rightarrow>
          (case await_task cancelled_end of
             Some CancelledError \<Rightarrow> (None, Some (Ended cancelled_end))
           | Some (Exception m) \<Rightarrow> (Some (Exception m), Some (Ended cancelled_end))
           | None \<Rightarrow> (None, Some (Ended cancelled_end))))"

definition AgentOrchestrator_shutdown :: "AgentOrchestrator \<Rightarrow> exn option \<times> AgentOrchestrator" where
  "AgentOrchestrator_shutdown orch =
     (let o1 = orch\<lparr>controller := shutdown (controller orch)\<rparr> in
      case cancel_and_await (run_coding_agent_end (Some CancelledError)) (coding_task o1) of
        (Some e, t) \<Rightarrow> (Some e, o1\<lparr>coding_task := t\<rparr>)
      | (None, t) \<Rightarrow>
          (let o2 = o1\<lparr>coding_task := t\<rparr> in
           case cancel_and_await (run_loop_end (Some CancelledError)) (bug_finder_task o2) of
             (Some e, t') \<Rightarrow> (Some e, o2\<lparr>bug_finder_task := t'\<rparr>)
           | (None, t') \<Rightarrow> (None, o2\<lparr>bug_finder_task := t', is_running := False\<rparr>)))"

text \<open>
  The \<open>except Exception\<close> clause of \<open>run\<close> with its \<open>finally\<close>: shut down, then raise the
  exception caught again. An exception out of \<open>self.shutdown()\<close> leaves the handler in
  its place.
\<close>

definition run_except :: "exn \<Rightarrow> AgentOrchestrator \<Rightarrow> exn option \<times> AgentOrchestrator" where
  "run_except e orch =
     (case AgentOrchestrator_shutdown orch of
        (Some e2, o') \<Rightarrow> (Some e2, o'\<lparr>is_running := False\<rparr>)
      | (None, o') \<Rightarrow> (Some e, o'\<lparr>is_running := False\<rparr>))"

text \<open>
  \<open>run\<close>. What the method cannot know is given: how the coding agent's work ends
  (\<open>coding_body\<close>), the calls the two tasks have made on the controller until then
  (\<open>calls\<close>), whether the bug finder's task is still pending at that moment
  (\<open>finder_state\<close>), and how a pending bug finder's loop ends once the controller is shut
  down (\<open>finder_body\<close>). The result is the exception \<open>run\<close> raises, if any, and the
  orchestrator afterwards.
\<close>

definition AgentOrchestrator_run ::
  "exn option \<Rightarrow> BugInsight call list \<Rightarrow> task_state \<Rightarrow> exn option \<Rightarrow> AgentOrchestrator
     \<Rightarrow> exn option \<times> AgentOrchestrator" where
  "AgentOrchestrator_run coding_body calls finder_state finder_body orch =
     (let o1 = orch\<lparr>is_running := True\<rparr>;
          o2 = o1\<lparr>coding_task := Some Pending, bug_finder_task := Some Pending\<rparr>;
          coding_end = run_coding_agent_end coding_body;
          o3 = o2\<lparr>controller := run calls (controller o2),
                  coding_task := Some (Ended coding_end),
                  bug_finder_task := Some finder_state\<rparr>
      in case await_task coding_end of
           None \<Rightarrow>
             (let o4 = o3\<lparr>controller := shutdown (controller o3)\<rparr>;
                  finder_end = (case finder_state of Pending \<Rightarrow> run_loop_end finder_body
                                | Ended t \<Rightarrow> t);
                  o5 = o4\<lparr>bug_finder_task := Some (Ended finder_end)\<rparr>
              in case await_task finder_end of
                   None \<Rightarrow> (None, o5\<lparr>is_running := False\<rparr>)
                 | Some (Exception m) \<Rightarrow> run_except (Exception m) o5
                 | Some CancelledError \<Rightarrow> (Some CancelledError, o5\<lparr>is_running := False\<rparr>))
         | Some (Exception m) \<Rightarrow> run_except (Exception m) o3
         | Some CancelledError \<Rightarrow> (Some CancelledError, o3\<lparr>is_running := False\<rparr>))"

text \<open>\<open>__init__\<close>, as far as the fields above go.\<close>

definition AgentOrchestrator_init :: AgentOrchestrator where
  "AgentOrchestrator_init =
     \<lparr>controller = SharedController_init, coding_task = None, bug_finder_task = None,
      is_running = False\<rparr>"

section \<open>Findings as objects\<close>

text \<open>
  In Python a finding is an object. The queue, the context log and the lists the
  detectors return hold references to it, and an assignment to one of its fields would
  be seen through every one of them. The heap maps each reference to the object as it
  is now; the references below \<open>allocated\<close> are those of the objects constructed so far.
  The controller of a world holds references.
\<close>

type_synonym ref = nat

record world =
  heap :: "ref \<Rightarrow> BugInsight"
  allocated :: nat
  ctl :: "ref SharedController"

text \<open>
  A constructor call \<open>BugInsight(...)\<close>: a new object is allocated, and \<open>__init__\<close>
  and \<open>__post_init__\<close> assign its fields before anybody else holds a reference to it.
  \<open>construct\<close> allocates an object with the fields the constructor has assigned.
\<close>

definition construct :: "BugInsight \<Rightarrow> world \<Rightarrow> ref \<times> world" where
  "construct obj w =
     (allocated w, w\<lparr>heap := (heap w)(allocated w := obj), allocated := Suc (allocated w)\<rparr>)"

definition new_BugInsight ::
  "string \<Rightarrow> string \<Rightarrow> string \<Rightarrow> string option \<Rightarrow> int option \<Rightarrow> string option
     \<Rightarrow> datetime option \<Rightarrow> datetime \<Rightarrow> world \<Rightarrow> ref \<times> world" where
  "new_BugInsight bt d sev fp ln fix ts now w =
     construct (BugInsight_init bt d sev fp ln fix ts now) w"

fun construct_all :: "BugInsight list \<Rightarrow> world \<Rightarrow> ref list \<times> world" where
  "construct_all [] w = ([], w)"
| "construct_all (obj # rest) w =
     (case construct obj w of
        (r, w1) \<Rightarrow> (case construct_all rest w1 of (rs, w2) \<Rightarrow> (r # rs, w2)))"

text \<open>
  The controller's operations on a world. Only \<open>inject_insight\<close> looks at the object
  it is given: it reads the fields \<open>bug_type\<close> and \<open>description\<close> for the log and the
  field \<open>timestamp\<close> for the context entry. All others are those defined above, at
  references.
\<close>

definition inject_insight_obj :: "ref \<Rightarrow> world \<Rightarrow> world" where
  "inject_insight_obj insight w =
     w\<lparr>ctl := (ctl w)
          \<lparr>insights_queue := put_nowait insight (insights_queue (ctl w)),
           agent_context := agent_context (ctl w) @
             [\<lparr>entry_type = ''bug_insight'', entry_insight = insight,
               entry_timestamp = timestamp (heap w insight)\<rparr>]\<rparr>\<rparr>"

fun exec_obj :: "ref call \<Rightarrow> world \<Rightarrow> world" where
  "exec_obj (RequestPause reason) w = w\<lparr>ctl := request_pause reason (ctl w)\<rparr>"
| "exec_obj (InjectInsight insight) w = inject_insight_obj insight w"
| "exec_obj RequestResume w = w\<lparr>ctl := request_resume (ctl w)\<rparr>"
| "exec_obj Checkpoint w = w\<lparr>ctl := snd (checkpoint (ctl w))\<rparr>"
| "exec_obj GetInsights w = w\<lparr>ctl := snd (get_insights (ctl w))\<rparr>"
| "exec_obj GetContextSummary w = w"
| "exec_obj Shutdown w = w\<lparr>ctl := shutdown (ctl w)\<rparr>"

definition run_obj :: "ref call list \<Rightarrow> world \<Rightarrow> world" where
  "run_obj cs w = fold exec_obj cs w"

text \<open>
  What the two functions that turn findings into text need of Python and cannot be
  written here: \<open>str.upper\<close>, whose result may leave the code points below 256, the
  decimal form of an integer, and the four pictographs of \<open>_enhance_problem_statement\<close>.
\<close>

record text_ops =
  str_upper :: "string \<Rightarrow> string"
  str_of_int :: "int \<Rightarrow> string"
  icon_insight :: string
  icon_file :: string
  icon_fix :: string
  icon_severity :: string

text \<open>\<open>SharedController.get_context_summary\<close>: it reads the last five entries.\<close>

definition summary_line :: "text_ops \<Rightarrow> (ref \<Rightarrow> BugInsight) \<Rightarrow> string \<Rightarrow> ref context_entry \<Rightarrow> string" where
  "summary_line t h summary entry =
     (if entry_type entry = ''bug_insight''
      then (let insight = h (entry_insight entry);
                s1 = summary @ ''- '' @ str_upper t (severity insight) @ '': '' @ bug_type insight
                       @ '' - '' @ description insight @ [newline]
            in (case suggested_fix insight of
                  None \<Rightarrow> s1
                | Some f \<Rightarrow> if f = [] then s1 else s1 @ ''  Suggested fix: '' @ f @ [newline]))
      else summary)"

definition get_context_summary :: "text_ops \<Rightarrow> world \<Rightarrow> string" where
  "get_context_summary t w =
     (if agent_context (ctl w) = [] then ''No additional context.''
      else foldl (summary_line t (heap w)) (''Additional context from bug-finder:'' @ [newline])
             (drop (length (agent_context (ctl w)) - 5) (agent_context (ctl w))))"

text \<open>
  The loop at the end of \<open>BugFinderAgent._check_for_bugs\<close> at references: it reads
  the fields \<open>severity\<close> and \<open>bug_type\<close> of each finding.
\<close>

definition process_insight_obj ::
  "(ref \<Rightarrow> BugInsight) \<Rightarrow> bool \<Rightarrow> ref \<Rightarrow> ref action list \<times> exn option" where
  "process_insight_obj h sleep_completes insight =
     (if severity (h insight) \<in> set [''high'', ''critical'']
      then (if sleep_completes
            then ([Call (RequestPause (''Critical bug detected: '' @ bug_type (h insight))),
                   Call (InjectInsight insight),
                   Sleep 1,
                   Call RequestResume], None)
            else ([Call (RequestPause (''Critical bug detected: '' @ bug_type (h insight))),
                   Call (InjectInsight insight),
                   Sleep 1], Some CancelledError))
      else if severity (h insight) = ''medium''
      then ([Call (InjectInsight insight)], None)
      else ([], None))"

fun process_insights_obj ::
  "(ref \<Rightarrow> BugInsight) \<Rightarrow> nat option \<Rightarrow> ref list \<Rightarrow> ref action list \<times> exn option" where
  "process_insights_obj h cancel_at [] = ([], None)"
| "process_insights_obj h cancel_at (insight # rest) =
     (case process_insight_obj h (cancel_at \<noteq> Some 0) insight of
        (acts, Some e) \<Rightarrow> (acts, Some e)
      | (acts, None) \<Rightarrow>
          (case process_insights_obj h
                  (if severity (h insight) \<in> set [''high'', ''critical'']
                   then map_option (\<lambda>n. n - 1) cancel_at else cancel_at) rest of
             (acts', e') \<Rightarrow> (acts @ acts', e')))"

text \<open>
  One pass of the bug finder on a world: the detectors construct their findings
  (\<open>found\<close> gives the fields of each, in order), and the loop reacts to them.
\<close>

definition check_for_bugs_obj :: "nat option \<Rightarrow> BugInsight list \<Rightarrow> world \<Rightarrow> exn option \<times> world" where
  "check_for_bugs_obj cancel_at found w =
     (case construct_all found w of
        (all_insights, w1) \<Rightarrow>
          (case process_insights_obj (heap w1) cancel_at all_insights of
             (acts, e) \<Rightarrow> (e, run_obj (calls_of acts) w1)))"

text \<open>
  \<open>AgentOrchestrator._enhance_problem_statement\<close>: it reads every field of each
  finding but the timestamp.
\<close>

definition enhance_insight :: "text_ops \<Rightarrow> string \<Rightarrow> BugInsight \<Rightarrow> string" where
  "enhance_insight t enhanced insight =
     (let e1 = enhanced @ icon_insight t @ '' '' @ str_upper t (bug_type insight) @ '': ''
                 @ description insight @ [newline];
          e2 = (case file_path insight of
                  None \<Rightarrow> e1
                | Some fp \<Rightarrow>
                    if fp = [] then e1
                    else (let e = e1 @ ''   '' @ icon_file t @ '' File: '' @ fp
                          in (case line_number insight of
                                None \<Rightarrow> e
                              | Some n \<Rightarrow> if n = 0 then e else e @ '':'' @ str_of_int t n)
                             @ [newline]));
          e3 = (case suggested_fix insight of
                  None \<Rightarrow> e2
                | Some f \<Rightarrow>
                    if f = [] then e2
                    else e2 @ ''   '' @ icon_fix t @ '' Suggested fix: '' @ f @ [newline])
      in e3 @ ''   '' @ icon_severity t @ ''  Severity: '' @ severity insight
           @ [newline, newline])"

definition enhance_problem_statement :: "text_ops \<Rightarrow> string \<Rightarrow> BugInsight list \<Rightarrow> string" where
  "enhance_problem_statement t original insights =
     (if insights = [] then original
      else foldl (enhance_insight t)
             (original @ [newline, newline] @ ''=== BUG-FINDER INSIGHTS ==='' @ [newline]
                @ ''The bug-finder agent has detected the following issues:''
                @ [newline, newline])
             insights
           @ ''Please address these issues in your implementation.'' @ [newline]
           @ ''=========================================='' @ [newline])"

text \<open>
  What the orchestrator does with findings: \<open>_run_coding_agent\<close> begins by taking
  the pending findings from the controller and, when there are any, writing them into
  the problem statement; \<open>run\<close> and \<open>shutdown\<close> call the controller's \<open>shutdown\<close>.
\<close>

definition run_coding_agent_begin :: "text_ops \<Rightarrow> string \<Rightarrow> world \<Rightarrow> string \<times> world" where
  "run_coding_agent_begin t problem_statement w =
     (case get_insights (ctl w) of
        (insights, c) \<Rightarrow>
          (if insights \<noteq> []
           then enhance_problem_statement t problem_statement (map (heap w) insights)
           else problem_statement,
           w\<lparr>ctl := c\<rparr>))"

definition orchestrator_shutdown_obj :: "world \<Rightarrow> world" where
  "orchestrator_shutdown_obj w = exec_obj Shutdown w"

text \<open>
  The operations of the three components, as far as they have to do with findings, and
  a run of the system as a sequence of them.
\<close>

datatype operation =
    ControllerCall "ref call"
  | ContextSummary
  | Construct BugInsight
  | DetectorPass "nat option" "BugInsight list"
  | CodingAgentBegin string
  | OrchestratorShutdown

fun apply_operation :: "text_ops \<Rightarrow> operation \<Rightarrow> world \<Rightarrow> world" where
  "apply_operation t (ControllerCall k) w = exec_obj k w"
| "apply_operation t ContextSummary w = (case get_context_summary t w of summary \<Rightarrow> w)"
| "apply_operation t (Construct obj) w = snd (construct obj w)"
| "apply_operation t (DetectorPass cancel_at found) w = snd (check_for_bugs_obj cancel_at found w)"
| "apply_operation t (CodingAgentBegin problem_statement) w =
     snd (run_coding_agent_begin t problem_statement w)"
| "apply_operation t OrchestratorShutdown w = orchestrator_shutdown_obj w"

definition run_operations :: "text_ops \<Rightarrow> operation list \<Rightarrow> world \<Rightarrow> world" where
  "run_operations t ops w = fold (apply_operation t) ops w"

text \<open>
  The values a world stands for: the controller with each reference replaced by the
  object it refers to.
\<close>

definition view :: "world \<Rightarrow> BugInsight SharedController" where
  "view w =
     \<lparr>pause_event = pause_event (ctl w), resume_event = resume_event (ctl w),
      shutdown_event = shutdown_event (ctl w),
      insights_queue = map (heap w) (insights_queue (ctl w)),
      agent_context =
        map (\<lambda>e. \<lparr>entry_type = entry_type e, entry_insight = heap w (entry_insight e),
                   entry_timestamp = entry_timestamp e\<rparr>) (agent_context (ctl w)),
      is_paused = is_paused (ctl w), pause_reason = pause_reason (ctl w),
      agent_turn_count = agent_turn_count (ctl w)\<rparr>"

text \<open>
  The world at the start of a run: no finding has been constructed, and the controller
  is as \<open>__init__\<close> leaves it. (The heap is a total function; what it holds at a
  reference that is not allocated is of no account.)
\<close>

definition world_init :: world where
  "world_init =
     \<lparr>heap = (\<lambda>r. sample_low), allocated = 0,
      ctl = \<lparr>pause_event = Event, resume_event = ev_set Event, shutdown_event = Event,
             insights_queue = [], agent_context = [],
             is_paused = False, pause_reason = None, agent_turn_count = 0\<rparr>\<rparr>"

text \<open>Text primitives for the examples.\<close>

definition sample_text_ops :: text_ops where
  "sample_text_ops =
     \<lparr>str_upper = (\<lambda>s. s), str_of_int = (\<lambda>n. ''0''), icon_insight = ''*'', icon_file = ''*'',
      icon_fix = ''*'', icon_severity = ''*''\<rparr>"

section \<open>Properties of the controller\<close>

lemma run_Nil [simp]: "run [] c = c"
  by (simp add: run_def)

lemma run_Cons [simp]: "run (k # cs) c = run cs (exec k c)"
  by (simp add: run_def)

lemma run_append [simp]: "run (cs @ ds) c = run ds (run cs c)"
  by (simp add: run_def)

lemma get_insights_loop_all: "get_insights_loop acc q = (acc @ q, [])"
proof (induction q arbitrary: acc)
  case Nil
  show ?case
    by (subst get_insights_loop.simps) (simp add: empty_queue_def)
next
  case (Cons x q)
  show ?case
    by (subst get_insights_loop.simps)
       (simp add: empty_queue_def get_nowait_def Cons.IH)
qed

lemma get_insights_eq: "get_insights c = (insights_queue c, c\<lparr>insights_queue := []\<rparr>)"
  by (simp add: get_insights_def get_insights_loop_all)

lemma insights_queue_exec:
  "k \<noteq> GetInsights \<Longrightarrow> insights_queue (exec k c) = insights_queue c @ injected [k]"
  by (cases k)
     (simp_all add: request_pause_def inject_insight_def request_resume_def checkpoint_def
        shutdown_def put_nowait_def ev_wait_def Let_def split: prod.splits wait_outcome.splits)

lemma injected_append: "injected (cs @ ds) = injected cs @ injected ds"
  by (induction cs rule: injected.induct) simp_all

lemma insights_queue_run:
  "GetInsights \<notin> set cs \<Longrightarrow> insights_queue (run cs c) = insights_queue c @ injected cs"
proof (induction cs arbitrary: c)
  case Nil
  show ?case by simp
next
  case (Cons k cs)
  then have "k \<noteq> GetInsights" and rest: "GetInsights \<notin> set cs" by auto
  have "injected (k # cs) = injected [k] @ injected cs"
    using injected_append [of "[k]" cs] by simp
  then show ?case
    using Cons.IH [OF rest, of "exec k c"] insights_queue_exec [OF \<open>k \<noteq> GetInsights\<close>, of c]
    by simp
qed

text \<open>
  C3. Whatever calls are made on a controller whose mailbox is empty, as long as none of
  them drains it, one \<open>get_insights\<close> returns exactly the findings injected, oldest first,
  and leaves the mailbox empty, so that a second \<open>get_insights\<close> right after it returns
  the empty list; on an empty mailbox (no call at all) the result is the empty list.
  \<open>get_insights\<close> has no suspension point: it is a total function of the state.
\<close>

theorem get_insights_returns_injected:
  assumes "GetInsights \<notin> set cs" and "insights_queue c = []"
  shows "fst (get_insights (run cs c)) = injected cs
       \<and> insights_queue (snd (get_insights (run cs c))) = []
       \<and> fst (get_insights (snd (get_insights (run cs c)))) = []
       \<and> fst (get_insights c) = []"
  using insights_queue_run [OF assms(1), of c] assms(2)
  by (simp add: get_insights_eq)

theorem get_insights_returns_injected_witness:
  "GetInsights \<notin> set [InjectInsight sample_low, RequestPause ''stop'', InjectInsight sample_high]
   \<and> insights_queue SharedController_init = []
   \<and> fst (get_insights (run [InjectInsight sample_low, RequestPause ''stop'',
         InjectInsight sample_high] SharedController_init)) = [sample_low, sample_high]
   \<and> fst (get_insights (snd (get_insights (run [InjectInsight sample_low, RequestPause ''stop'',
         InjectInsight sample_high] SharedController_init)))) = []"
  using get_insights_returns_injected
    [of "[InjectInsight sample_low, RequestPause ''stop'', InjectInsight sample_high]"
        SharedController_init]
  by (simp add: SharedController_init_def)

text \<open>
  C4. On a paused controller \<open>request_pause\<close> changes nothing at all: \<open>is_paused\<close> stays
  true, the reason recorded by the first call stays, and the pause and resume events are
  as they were. In particular the second of two calls in a row has no effect, whatever
  the state before the first.
\<close>

theorem request_pause_when_paused:
  assumes "is_paused c"
  shows "request_pause reason2 c = c
       \<and> is_paused (request_pause reason2 c)
       \<and> pause_reason (request_pause reason2 c) = pause_reason c
       \<and> pause_event (request_pause reason2 c) = pause_event c
       \<and> resume_event (request_pause reason2 c) = resume_event c
       \<and> request_pause reason2 (request_pause reason1 c0) = request_pause reason1 c0"
  using assms by (simp add: request_pause_def)

theorem request_pause_when_paused_witness:
  "is_paused (request_pause ''first'' SharedController_init)
   \<and> request_pause ''second'' (request_pause ''first'' SharedController_init)
       = request_pause ''first'' SharedController_init
   \<and> pause_reason (request_pause ''second'' (request_pause ''first'' SharedController_init))
       = Some ''first''"
  using request_pause_when_paused
    [of "request_pause ''first'' SharedController_init" "''second''"]
  by (simp add: request_pause_def SharedController_init_def)

lemma pause_consistent_init: "pause_consistent SharedController_init"
  by (simp add: pause_consistent_def SharedController_init_def Event_def ev_set_def is_set_def)

lemma pause_consistent_exec:
  assumes "pause_consistent c"
  shows "pause_consistent (exec k c)"
proof (cases k)
  case (RequestPause reason)
  with assms show ?thesis
    by (auto simp: pause_consistent_def request_pause_def ev_set_def ev_clear_def is_set_def)
next
  case (InjectInsight insight)
  with assms show ?thesis
    by (auto simp: pause_consistent_def inject_insight_def)
next
  case RequestResume
  with assms show ?thesis
    by (auto simp: pause_consistent_def request_resume_def ev_set_def ev_clear_def is_set_def)
next
  case Checkpoint
  with assms show ?thesis
    by (auto simp: pause_consistent_def checkpoint_def ev_wait_def is_set_def Let_def)
next
  case GetInsights
  with assms show ?thesis
    by (auto simp: pause_consistent_def get_insights_eq)
next
  case GetContextSummary
  with assms show ?thesis by simp
next
  case Shutdown
  with assms show ?thesis
    by (auto simp: pause_consistent_def shutdown_def ev_set_def is_set_def)
qed

lemma pause_consistent_run: "pause_consistent c \<Longrightarrow> pause_consistent (run cs c)"
  by (induction cs arbitrary: c) (simp_all add: pause_consistent_exec)

text \<open>
  C10, as the code has it. After any sequence of calls on a freshly constructed
  controller the pause state is consistent: \<open>is_paused\<close> holds exactly when the pause
  event is set and exactly when a pause reason is recorded (\<open>pause_reason\<close> is not
  \<open>None\<close>; the reason recorded is the string that was passed, which may be empty); and
  while the shutdown event is not set, the resume event is set exactly when \<open>is_paused\<close>
  is false.
\<close>

theorem pause_state_consistent:
  "pause_consistent (run cs SharedController_init)"
  by (rule pause_consistent_run [OF pause_consistent_init])

theorem pause_state_consistent_witness:
  "\<not> is_set (shutdown_event (run [RequestPause ''stop'', Checkpoint] SharedController_init))
   \<and> is_paused (run [RequestPause ''stop'', Checkpoint] SharedController_init)
   \<and> pause_reason (run [RequestPause ''stop'', Checkpoint] SharedController_init) = Some ''stop''
   \<and> pause_consistent (run [RequestPause ''stop'', Checkpoint] SharedController_init)"
  using pause_state_consistent [of "[RequestPause ''stop'', Checkpoint]"]
  by (simp add: SharedController_init_def request_pause_def checkpoint_def ev_wait_def
      ev_set_def ev_clear_def Event_def is_set_def Let_def)

text \<open>
  The claim as it is written fails: after \<open>request_pause\<close> with the empty string as
  reason the controller is paused and its pause reason is empty.
\<close>

theorem pause_state_consistent_counterexample:
  "is_paused (run [RequestPause []] SharedController_init)
   \<and> pause_reason (run [RequestPause []] SharedController_init) = Some []"
  by (simp add: SharedController_init_def request_pause_def)

subsection \<open>Suspension and release\<close>

lemma shutdown_event_exec:
  "is_set (shutdown_event c) \<Longrightarrow> is_set (shutdown_event (exec k c))"
  by (cases k)
     (simp_all add: request_pause_def inject_insight_def request_resume_def checkpoint_def
        get_insights_eq shutdown_def ev_set_def ev_wait_def is_set_def Let_def)

lemma shutdown_event_run:
  "is_set (shutdown_event c) \<Longrightarrow> is_set (shutdown_event (run cs c))"
  by (induction cs arbitrary: c) (simp_all add: shutdown_event_exec)

lemma resume_event_exec:
  assumes "is_set (resume_event c)" and "\<forall>r. k \<noteq> RequestPause r"
  shows "is_set (resume_event (exec k c))"
  using assms
  by (cases k)
     (simp_all add: inject_insight_def request_resume_def checkpoint_def
        get_insights_eq shutdown_def ev_set_def ev_wait_def is_set_def Let_def)

lemma resume_event_run:
  "is_set (resume_event c) \<Longrightarrow> \<forall>r. RequestPause r \<notin> set cs
     \<Longrightarrow> is_set (resume_event (run cs c))"
proof (induction cs arbitrary: c)
  case Nil
  then show ?case by simp
next
  case (Cons k cs)
  from Cons.prems(2) have "\<forall>r. k \<noteq> RequestPause r" and "\<forall>r. RequestPause r \<notin> set cs"
    by auto
  with Cons.IH [of "exec k c"] resume_event_exec [OF Cons.prems(1)] show ?case
    by simp
qed

lemma checkpoint_shut_down:
  assumes "is_set (shutdown_event c)"
  shows "fst (checkpoint c) \<noteq> Returned True"
    and "is_set (resume_event c) \<Longrightarrow> fst (checkpoint c) = Returned False"
  using assms
  by (simp_all add: checkpoint_def ev_wait_def is_set_def Let_def)

text \<open>
  What does hold after \<open>shutdown\<close>: no later \<open>checkpoint\<close> ever returns true. A call
  that returns at once returns false, and a call that was parked returns false when it
  is released, whatever the state before the shutdown and whatever calls follow it; and
  as long as no \<open>request_pause\<close> follows the shutdown, \<open>checkpoint\<close> does not suspend.
\<close>

lemma no_true_after_shutdown:
  "fst (checkpoint (run (cs1 @ Shutdown # cs2) c)) \<noteq> Returned True
   \<and> \<not> checkpoint_resumed (run (cs1 @ Shutdown # cs2) c)
   \<and> ((\<forall>r. RequestPause r \<notin> set cs2)
        \<longrightarrow> fst (checkpoint (run (cs1 @ Shutdown # cs2) c)) = Returned False)"
proof -
  let ?d = "exec Shutdown (run cs1 c)"
  have run_eq: "run (cs1 @ Shutdown # cs2) c = run cs2 ?d"
    by simp
  have sd: "is_set (shutdown_event ?d)" and rs: "is_set (resume_event ?d)"
    by (simp_all add: shutdown_def ev_set_def is_set_def)
  have sd': "is_set (shutdown_event (run cs2 ?d))"
    by (rule shutdown_event_run [OF sd])
  have "(\<forall>r. RequestPause r \<notin> set cs2) \<longrightarrow> is_set (resume_event (run cs2 ?d))"
    using resume_event_run [OF rs] by blast
  with sd' show ?thesis
    unfolding run_eq
    using checkpoint_shut_down [of "run cs2 ?d"]
    by (simp add: checkpoint_resumed_def)
qed

text \<open>
  C1. The claim says that after \<open>shutdown\<close> every \<open>checkpoint\<close> returns false without
  suspending, also when \<open>request_pause\<close> is called after the shutdown. The code does so
  when the pause was requested before the shutdown, but not when it is requested after
  it: \<open>request_pause\<close> does not look at the shutdown event, so on a fresh controller
  \<open>shutdown\<close> followed by \<open>request_pause\<close> leaves the shutdown event set, the pause
  event set and the resume event cleared, and the next \<open>checkpoint\<close> parks its caller.
\<close>

theorem checkpoint_parks_after_shutdown:
  "is_set (shutdown_event (run [Shutdown, RequestPause ''late''] SharedController_init))
   \<and> fst (checkpoint (run [Shutdown, RequestPause ''late''] SharedController_init)) = Suspended
   \<and> parked (snd (checkpoint (run [Shutdown, RequestPause ''late''] SharedController_init)))
   \<and> fst (checkpoint (run [RequestPause ''late'', Shutdown] SharedController_init))
        = Returned False"
  by (simp add: SharedController_init_def shutdown_def request_pause_def checkpoint_def
      ev_wait_def ev_set_def ev_clear_def Event_def is_set_def parked_def Let_def)

lemma blocked_stays:
  assumes "is_paused c" and "\<not> ev_flag (resume_event c)" and "parked c"
    and "k \<noteq> Checkpoint" and "k \<noteq> RequestResume" and "k \<noteq> Shutdown"
  shows "is_paused (exec k c) \<and> \<not> ev_flag (resume_event (exec k c)) \<and> parked (exec k c)"
  using assms
  by (cases k) (simp_all add: request_pause_def inject_insight_def get_insights_eq parked_def)

lemma blocked_released:
  assumes "is_paused c" and "k = RequestResume \<or> k = Shutdown"
  shows "\<not> parked (exec k c)"
  using assms
  by (auto simp: request_resume_def shutdown_def ev_set_def parked_def)

lemma released_stays:
  assumes "\<not> parked c" and "k \<noteq> Checkpoint"
  shows "\<not> parked (exec k c)"
  using assms
  by (cases k)
     (simp_all add: request_pause_def inject_insight_def request_resume_def get_insights_eq
        shutdown_def ev_set_def ev_clear_def parked_def)

lemma released_run:
  "\<not> parked c \<Longrightarrow> Checkpoint \<notin> set cs \<Longrightarrow> \<not> parked (run cs c)"
proof (induction cs arbitrary: c)
  case Nil
  then show ?case by simp
next
  case (Cons k cs)
  from Cons.prems(2) have "k \<noteq> Checkpoint" and "Checkpoint \<notin> set cs"
    by auto
  with Cons.IH [of "exec k c"] released_stays [OF Cons.prems(1)] show ?case
    by simp
qed

lemma blocked_run:
  assumes "is_paused c" and "\<not> ev_flag (resume_event c)" and "parked c"
    and "Checkpoint \<notin> set cs"
  shows "\<not> parked (run cs c) \<longleftrightarrow> RequestResume \<in> set cs \<or> Shutdown \<in> set cs"
  using assms
proof (induction cs arbitrary: c)
  case Nil
  then show ?case by simp
next
  case (Cons k cs)
  from Cons.prems(4) have k: "k \<noteq> Checkpoint" and cs: "Checkpoint \<notin> set cs"
    by auto
  show ?case
  proof (cases "k = RequestResume \<or> k = Shutdown")
    case True
    then have "\<not> parked (exec k c)"
      using blocked_released [OF Cons.prems(1)] by blast
    then have "\<not> parked (run cs (exec k c))"
      by (rule released_run [OF _ cs])
    with True show ?thesis by auto
  next
    case False
    then have "is_paused (exec k c) \<and> \<not> ev_flag (resume_event (exec k c)) \<and> parked (exec k c)"
      using blocked_stays [OF Cons.prems(1-3) k] by blast
    then have "\<not> parked (run cs (exec k c)) \<longleftrightarrow> RequestResume \<in> set cs \<or> Shutdown \<in> set cs"
      using Cons.IH [of "exec k c"] cs by blast
    with False show ?thesis by auto
  qed
qed

lemma suspended_blocked:
  assumes "pause_consistent c" and "fst (checkpoint c) = Suspended"
  shows "is_paused (snd (checkpoint c)) \<and> \<not> ev_flag (resume_event (snd (checkpoint c)))
       \<and> parked (snd (checkpoint c))"
  using assms
  by (auto simp: pause_consistent_def checkpoint_def ev_wait_def is_set_def Let_def parked_def
      split: if_splits)

text \<open>
  C2. Take any state the controller can reach from its construction, and a \<open>checkpoint\<close>
  call that suspends there. Whatever calls the other tasks make afterwards (the parked
  consumer itself makes none), the consumer is released exactly when one of them is a
  \<open>request_resume\<close> or a \<open>shutdown\<close>. \<open>shutdown\<close> sets the resume event in every state,
  leaves nobody parked, and makes the released \<open>checkpoint\<close> return false.
\<close>

theorem suspended_checkpoint_released_iff:
  assumes "fst (checkpoint (run cs0 SharedController_init)) = Suspended"
    and "Checkpoint \<notin> set cs"
  shows "(\<not> parked (run cs (snd (checkpoint (run cs0 SharedController_init))))
           \<longleftrightarrow> RequestResume \<in> set cs \<or> Shutdown \<in> set cs)
       \<and> is_set (resume_event (shutdown c)) \<and> \<not> parked (shutdown c)
       \<and> \<not> checkpoint_resumed (shutdown c)"
proof -
  let ?c0 = "run cs0 SharedController_init"
  have "pause_consistent ?c0"
    by (rule pause_consistent_run [OF pause_consistent_init])
  from suspended_blocked [OF this assms(1)]
  have "\<not> parked (run cs (snd (checkpoint ?c0)))
          \<longleftrightarrow> RequestResume \<in> set cs \<or> Shutdown \<in> set cs"
    using blocked_run [OF _ _ _ assms(2)] by blast
  then show ?thesis
    by (simp add: shutdown_def ev_set_def is_set_def parked_def checkpoint_resumed_def)
qed

theorem suspended_checkpoint_released_iff_witness:
  "fst (checkpoint (run [RequestPause ''stop''] SharedController_init)) = Suspended
   \<and> Checkpoint \<notin> set [InjectInsight sample_high, RequestPause ''again'']
   \<and> parked (run [InjectInsight sample_high, RequestPause ''again'']
        (snd (checkpoint (run [RequestPause ''stop''] SharedController_init))))
   \<and> Checkpoint \<notin> set [InjectInsight sample_high, RequestResume]
   \<and> \<not> parked (run [InjectInsight sample_high, RequestResume]
        (snd (checkpoint (run [RequestPause ''stop''] SharedController_init))))"
proof -
  have s: "fst (checkpoint (run [RequestPause ''stop''] SharedController_init)) = Suspended"
    by (simp add: SharedController_init_def request_pause_def checkpoint_def
        ev_wait_def ev_set_def ev_clear_def Event_def is_set_def Let_def)
  have n1: "Checkpoint \<notin> set [InjectInsight sample_high, RequestPause ''again'']"
    and n2: "Checkpoint \<notin> set [InjectInsight sample_high, RequestResume]"
    by simp_all
  show ?thesis
    using s
      suspended_checkpoint_released_iff
        [OF s n1, where c = "SharedController_init :: BugInsight SharedController"]
      suspended_checkpoint_released_iff
        [OF s n2, where c = "SharedController_init :: BugInsight SharedController"]
    by simp
qed

section \<open>Properties of the bug finder's reaction\<close>












section \<open>Properties of the linters\<close>

lemma parse_linter_line_diagnostic:
  "diagnostic_line line \<Longrightarrow> parse_linter_line now line = Inr (Some (linter_finding now line))"
  by (auto simp: diagnostic_line_def parse_linter_line_def linter_finding_def line_fields_def
      BugInsight_init_def Let_def)

lemma parse_linter_line_skipped:
  "\<not> diagnostic_line line \<Longrightarrow> \<not> breaks_parser line \<Longrightarrow> parse_linter_line now line = Inr None"
  by (auto simp: diagnostic_line_def breaks_parser_def parse_linter_line_def line_fields_def Let_def
      split: option.splits)

lemma parse_linter_lines_all:
  "\<forall>line \<in> set lines. \<not> breaks_parser line \<Longrightarrow>
     parse_linter_lines now insights j lines =
       Inr (insights @ map (\<lambda>(i, line). linter_finding (now i) line)
                         (filter (\<lambda>(i, line). diagnostic_line line) (enumerate j lines)))"
proof (induction lines arbitrary: insights j)
  case Nil
  show ?case by simp
next
  case (Cons line lines)
  then have ok: "\<not> breaks_parser line" and rest: "\<forall>l \<in> set lines. \<not> breaks_parser l"
    by simp_all
  show ?case
  proof (cases "diagnostic_line line")
    case True
    then show ?thesis
      using Cons.IH [OF rest, of "insights @ [linter_finding (now j) line]" "Suc j"]
      by (simp add: parse_linter_line_diagnostic)
  next
    case False
    then show ?thesis
      using Cons.IH [OF rest, of insights "Suc j"]
      by (simp add: parse_linter_line_skipped [OF False ok])
  qed
qed

lemma run_linters_python_only:
  "run_linters ws run_command now =
     (if py_paths ws \<noteq> []
         \<and> returncode (run_command ([''python'', ''-m'', ''flake8'', ''--max-line-length=100'']
              @ py_paths ws)) \<noteq> 0
      then (case parse_linter_output (now ''python'')
                  (stdout (run_command ([''python'', ''-m'', ''flake8'',
                     ''--max-line-length=100''] @ py_paths ws)))
                  (stderr (run_command ([''python'', ''-m'', ''flake8'',
                     ''--max-line-length=100''] @ py_paths ws))) ''python'' of
              Inr found \<Rightarrow> found
            | Inl e \<Rightarrow> [])
      else [])"
  by (simp add: run_linters_def linters_def run_linter_def find_files_by_type_def
      parse_linter_output_def Let_def split: sum.splits)

text \<open>
  C8, as the code has it. Only the output of the Python linter is parsed. When Python
  files are present, the linter exits with a non-zero status and no line of its
  (stripped, non-empty) standard output breaks the parser, the run yields exactly one
  finding per diagnostic line, in order, and nothing else: a \<open>linting_error\<close> with the
  file, the line number and the message of that line and the time at which it was
  read, whose severity is high when the message in lower case contains \<open>error\<close>, else
  medium when it contains \<open>warning\<close>, else low. The linters for JavaScript and
  TypeScript are run but their output yields no finding.
\<close>

theorem linter_findings:
  assumes "py_paths ws \<noteq> []"
    and "returncode (run_command ([''python'', ''-m'', ''flake8'', ''--max-line-length=100'']
           @ py_paths ws)) \<noteq> 0"
    and "out = stdout (run_command ([''python'', ''-m'', ''flake8'', ''--max-line-length=100'']
           @ py_paths ws))"
    and "out \<noteq> []"
    and "\<forall>line \<in> set (split newline (strip out)). \<not> breaks_parser line"
  shows "run_linters ws run_command now =
           linter_findings_of (now ''python'') (split newline (strip out))
       \<and> (\<forall>i \<in> set (run_linters ws run_command now).
             bug_type i = ''linting_error'' \<and> severity i = line_severity (description i))
       \<and> (contains ''error'' (lower message) \<longrightarrow> line_severity message = ''high'')
       \<and> (\<not> contains ''error'' (lower message) \<and> contains ''warning'' (lower message)
             \<longrightarrow> line_severity message = ''medium'')
       \<and> (\<not> contains ''error'' (lower message) \<and> \<not> contains ''warning'' (lower message)
             \<longrightarrow> line_severity message = ''low'')
       \<and> parse_linter_output clock out' err ''javascript'' = Inr []
       \<and> parse_linter_output clock out' err ''typescript'' = Inr []"
proof -
  have res: "run_linters ws run_command now =
           linter_findings_of (now ''python'') (split newline (strip out))"
    using assms(1,2,4) parse_linter_lines_all [OF assms(5), of "now ''python''" "[]" 0]
    unfolding run_linters_python_only assms(3) [symmetric]
    by (simp add: parse_linter_output_def linter_findings_of_def)
  have "\<forall>i \<in> set (run_linters ws run_command now).
             bug_type i = ''linting_error'' \<and> severity i = line_severity (description i)"
    unfolding res by (auto simp: linter_finding_def linter_findings_of_def)
  with res show ?thesis
    by (simp add: line_severity_def parse_linter_output_def)
qed

theorem linter_findings_witness:
  "py_paths py_workspace \<noteq> []
   \<and> returncode (flake8 ([''python'', ''-m'', ''flake8'', ''--max-line-length=100'']
        @ py_paths py_workspace)) \<noteq> 0
   \<and> flake8_output \<noteq> []
   \<and> filter breaks_parser (split newline (strip flake8_output)) = []
   \<and> map severity (run_linters py_workspace flake8 sample_clock) = [''high'', ''medium'', ''low'']
   \<and> map line_number (run_linters py_workspace flake8 sample_clock) = [Some 1, Some 3, Some 7]
   \<and> map timestamp (run_linters py_workspace flake8 sample_clock) = [100, 101, 103]"
proof -
  have h1: "py_paths py_workspace \<noteq> []"
    by (simp add: py_workspace_def)
  have h2: "returncode (flake8 ([''python'', ''-m'', ''flake8'', ''--max-line-length=100'']
              @ py_paths py_workspace)) \<noteq> 0"
    by (simp add: flake8_def)
  have h3: "flake8_output = stdout (flake8 ([''python'', ''-m'', ''flake8'',
              ''--max-line-length=100''] @ py_paths py_workspace))"
    by (simp add: flake8_def)
  have h4: "flake8_output \<noteq> []"
    by code_simp
  have h5: "\<forall>line \<in> set (split newline (strip flake8_output)). \<not> breaks_parser line"
    by code_simp
  have sev: "map severity (linter_findings_of (sample_clock ''python'')
               (split newline (strip flake8_output))) = [''high'', ''medium'', ''low'']"
    by code_simp
  have ln: "map line_number (linter_findings_of (sample_clock ''python'')
               (split newline (strip flake8_output))) = [Some 1, Some 3, Some 7]"
    by code_simp
  have ts: "map timestamp (linter_findings_of (sample_clock ''python'')
               (split newline (strip flake8_output))) = [100, 101, 103]"
    by code_simp
  from linter_findings [where ws = py_workspace and run_command = flake8
      and out = flake8_output and now = sample_clock, OF h1 h2 h3 h4 h5]
  have "run_linters py_workspace flake8 sample_clock =
          linter_findings_of (sample_clock ''python'') (split newline (strip flake8_output))"
    by blast
  moreover have "filter breaks_parser (split newline (strip flake8_output)) = []"
    using h5 by (simp add: filter_empty_conv)
  ultimately show ?thesis
    using h1 h2 h4 sev ln ts by simp
qed

text \<open>
  The claim as it is written fails for the other categories: with a JavaScript file in
  the workspace and a linter that exits with status 1 and prints one diagnostic line, the
  run yields no finding.
\<close>

theorem linter_findings_counterexample:
  "js_paths js_workspace \<noteq> []
   \<and> returncode (js_linter ([''npx'', ''eslint'', ''--format=json'']
        @ js_paths js_workspace)) \<noteq> 0
   \<and> diagnostic_line (stdout (js_linter ([''npx'', ''eslint'', ''--format=json'']
        @ js_paths js_workspace)))
   \<and> run_linters js_workspace js_linter sample_clock = []"
  by code_simp

section \<open>Properties of the import scan\<close>














section \<open>Properties of the orchestrator\<close>

lemma AgentOrchestrator_shutdown_ok:
  "fst (AgentOrchestrator_shutdown orch) = None"
  by (simp add: AgentOrchestrator_shutdown_def cancel_and_await_def await_task_def
      run_loop_end_def run_coding_agent_end_def Let_def
      split: option.splits task_state.splits prod.splits)

lemma AgentOrchestrator_shutdown_state:
  "is_set (shutdown_event (controller (snd (AgentOrchestrator_shutdown orch))))
   \<and> bug_finder_task (snd (AgentOrchestrator_shutdown orch)) =
       (case bug_finder_task orch of
          None \<Rightarrow> None
        | Some Pending \<Rightarrow> Some (Ended Cancelled)
        | Some (Ended t) \<Rightarrow> Some (Ended t))"
  by (simp add: AgentOrchestrator_shutdown_def cancel_and_await_def await_task_def
      run_loop_end_def run_coding_agent_end_def shutdown_def ev_set_def is_set_def Let_def
      split: option.splits task_state.splits prod.splits)

lemma run_except_result:
  "fst (run_except e orch) = Some e
   \<and> is_set (shutdown_event (controller (snd (run_except e orch))))
   \<and> bug_finder_task (snd (run_except e orch)) =
       (case bug_finder_task orch of
          None \<Rightarrow> None
        | Some Pending \<Rightarrow> Some (Ended Cancelled)
        | Some (Ended t) \<Rightarrow> Some (Ended t))
   \<and> \<not> is_running (snd (run_except e orch))"
proof -
  obtain r o' where sd: "AgentOrchestrator_shutdown orch = (r, o')"
    by (cases "AgentOrchestrator_shutdown orch")
  have r: "r = None"
    using AgentOrchestrator_shutdown_ok [of orch] sd by simp
  show ?thesis
    using AgentOrchestrator_shutdown_state [of orch]
    by (simp add: run_except_def sd r)
qed

text \<open>
  C6. When the coding agent's task raises an exception (an instance of \<open>Exception\<close>),
  \<open>run\<close> raises that same exception, and by then the controller's shutdown event is
  set, the bug finder's task has ended (cancelled, when it was still pending) and
  \<open>is_running\<close> is false. The orchestrator's \<open>shutdown\<close> never raises: both tasks end
  as cancelled when it cancels them, and it swallows the \<open>CancelledError\<close> of awaiting
  them; so nothing takes the place of the consumer's exception.
\<close>

theorem run_reraises_after_shutdown:
  "fst (AgentOrchestrator_run (Some (Exception m)) calls finder_state finder_body orch)
     = Some (Exception m)
   \<and> is_set (shutdown_event (controller
        (snd (AgentOrchestrator_run (Some (Exception m)) calls finder_state finder_body orch))))
   \<and> bug_finder_task
        (snd (AgentOrchestrator_run (Some (Exception m)) calls finder_state finder_body orch))
      = Some (Ended (case finder_state of Pending \<Rightarrow> Cancelled | Ended t \<Rightarrow> t))
   \<and> \<not> is_running
        (snd (AgentOrchestrator_run (Some (Exception m)) calls finder_state finder_body orch))
   \<and> fst (AgentOrchestrator_shutdown orch') = None"
proof -
  let ?o3 = "orch\<lparr>is_running := True, coding_task := Some Pending,
                   bug_finder_task := Some Pending,
                   controller := run calls (controller orch),
                   coding_task := Some (Ended (Failed (Exception m))),
                   bug_finder_task := Some finder_state\<rparr>"
  have run_eq: "AgentOrchestrator_run (Some (Exception m)) calls finder_state finder_body orch
                  = run_except (Exception m) ?o3"
    by (simp add: AgentOrchestrator_run_def run_coding_agent_end_def await_task_def Let_def)
  show ?thesis
    unfolding run_eq
    using run_except_result [of "Exception m" ?o3]
    by (simp add: AgentOrchestrator_shutdown_ok split: task_state.splits)
qed

theorem run_reraises_after_shutdown_witness:
  "fst (AgentOrchestrator_run (Some (Exception ''boom''))
          [RequestPause ''Critical bug detected: test_failure'', InjectInsight sample_high]
          Pending None AgentOrchestrator_init) = Some (Exception ''boom'')
   \<and> bug_finder_task (snd (AgentOrchestrator_run (Some (Exception ''boom''))
          [RequestPause ''Critical bug detected: test_failure'', InjectInsight sample_high]
          Pending None AgentOrchestrator_init)) = Some (Ended Cancelled)
   \<and> is_set (shutdown_event (controller (snd (AgentOrchestrator_run (Some (Exception ''boom''))
          [RequestPause ''Critical bug detected: test_failure'', InjectInsight sample_high]
          Pending None AgentOrchestrator_init))))"
  using run_reraises_after_shutdown
    [of "''boom''" "[RequestPause ''Critical bug detected: test_failure'',
          InjectInsight sample_high]" Pending None AgentOrchestrator_init]
  by simp

section \<open>Findings are not changed once constructed\<close>

lemma exec_obj_heap: "heap (exec_obj k w) = heap w \<and> allocated (exec_obj k w) = allocated w"
  by (cases k) (simp_all add: inject_insight_obj_def)

lemma run_obj_heap: "heap (run_obj cs w) = heap w \<and> allocated (run_obj cs w) = allocated w"
  unfolding run_obj_def
  by (induction cs arbitrary: w) (simp_all add: exec_obj_heap)

lemma construct_heap:
  "fst (construct obj w) = allocated w
   \<and> heap (snd (construct obj w)) (allocated w) = obj
   \<and> allocated (snd (construct obj w)) = Suc (allocated w)
   \<and> (r < allocated w \<longrightarrow> heap (snd (construct obj w)) r = heap w r)"
  by (simp add: construct_def)

lemma construct_all_heap:
  "allocated w \<le> allocated (snd (construct_all found w))
   \<and> (r < allocated w \<longrightarrow> heap (snd (construct_all found w)) r = heap w r)"
proof (induction found arbitrary: w)
  case Nil
  show ?case by simp
next
  case (Cons obj found)
  show ?case
    using Cons.IH [of "snd (construct obj w)"] construct_heap [of obj w r]
    by (auto split: prod.splits)
qed

lemma check_for_bugs_obj_heap:
  "allocated w \<le> allocated (snd (check_for_bugs_obj cancel_at found w))
   \<and> (r < allocated w \<longrightarrow> heap (snd (check_for_bugs_obj cancel_at found w)) r = heap w r)"
  using construct_all_heap [of w found r]
  by (auto simp: check_for_bugs_obj_def run_obj_heap split: prod.splits)

lemma run_coding_agent_begin_heap:
  "heap (snd (run_coding_agent_begin t p w)) = heap w
   \<and> allocated (snd (run_coding_agent_begin t p w)) = allocated w"
  by (simp add: run_coding_agent_begin_def split: prod.splits)

lemma apply_operation_heap:
  "allocated w \<le> allocated (apply_operation t op w)
   \<and> (r < allocated w \<longrightarrow> heap (apply_operation t op w) r = heap w r)"
proof (cases op)
  case (ControllerCall k)
  then show ?thesis by (simp add: exec_obj_heap)
next
  case ContextSummary
  then show ?thesis by simp
next
  case (Construct obj)
  then show ?thesis using construct_heap [of obj w r] by simp
next
  case (DetectorPass cancel_at found)
  then show ?thesis using check_for_bugs_obj_heap [of w cancel_at found r] by simp
next
  case (CodingAgentBegin p)
  then show ?thesis by (simp add: run_coding_agent_begin_heap)
next
  case OrchestratorShutdown
  then show ?thesis by (simp add: orchestrator_shutdown_obj_def)
qed

lemma run_operations_heap:
  "r < allocated w \<Longrightarrow>
     allocated w \<le> allocated (run_operations t ops w)
     \<and> heap (run_operations t ops w) r = heap w r"
  unfolding run_operations_def
proof (induction ops arbitrary: w)
  case Nil
  show ?case by simp
next
  case (Cons op ops)
  have a: "allocated w \<le> allocated (apply_operation t op w)"
    and h: "heap (apply_operation t op w) r = heap w r"
    using apply_operation_heap [of w t op r] Cons.prems by simp_all
  from a Cons.prems have "r < allocated (apply_operation t op w)"
    by simp
  from Cons.IH [OF this] a h show ?case
    by simp
qed

lemma view_exec_obj: "view (exec_obj k w) = exec (map_call (heap w) k) (view w)"
  by (cases k)
     (simp_all add: view_def inject_insight_obj_def inject_insight_def request_pause_def
        request_resume_def checkpoint_def get_insights_def get_insights_loop_all shutdown_def
        put_nowait_def ev_wait_def Let_def)

lemma view_init: "view world_init = SharedController_init"
  by (simp add: view_def world_init_def SharedController_init_def)

text \<open>
  C9. A finding is an object on the heap, and its fields are what the heap holds at its
  reference. Constructing a finding allocates a new reference and assigns the fields
  there, the timestamp among them (the one passed, or else the reading of the clock);
  it changes no object constructed before. No operation of the controller, of the bug
  finder's pass or of the orchestrator assigns to the heap at a reference that is
  allocated: each leaves every constructed object as it is, and the controller's own
  operations, the orchestrator's reading of the pending findings and its shutdown
  leave the whole heap as it is. So after any sequence of such operations every
  object constructed before has the fields it had, and a finding constructed at some
  moment still has the timestamp assigned by its constructor.
\<close>

theorem objects_never_change:
  assumes "r < allocated w"
  shows "heap (run_operations t ops w) r = heap w r
       \<and> allocated w \<le> allocated (run_operations t ops w)
       \<and> heap (exec_obj k w) = heap w
       \<and> heap (snd (check_for_bugs_obj cancel_at found w)) r = heap w r
       \<and> heap (snd (run_coding_agent_begin t problem_statement w)) = heap w
       \<and> heap (orchestrator_shutdown_obj w) = heap w
       \<and> fst (new_BugInsight bt d sev fp ln fix ts now w) = allocated w
       \<and> heap (snd (new_BugInsight bt d sev fp ln fix ts now w)) r = heap w r
       \<and> heap (run_operations t ops (snd (new_BugInsight bt d sev fp ln fix ts now w)))
            (allocated w) = BugInsight_init bt d sev fp ln fix ts now
       \<and> timestamp (heap (run_operations t ops
            (snd (new_BugInsight bt d sev fp ln fix ts now w))) (allocated w))
          = (case ts of None \<Rightarrow> now | Some given \<Rightarrow> given)"
proof -
  let ?w1 = "snd (new_BugInsight bt d sev fp ln fix ts now w)"
  have new: "fst (new_BugInsight bt d sev fp ln fix ts now w) = allocated w"
    "heap ?w1 (allocated w) = BugInsight_init bt d sev fp ln fix ts now"
    "allocated ?w1 = Suc (allocated w)"
    "heap ?w1 r = heap w r"
    using construct_heap [of "BugInsight_init bt d sev fp ln fix ts now" w r] assms
    by (simp_all add: new_BugInsight_def)
  have "allocated w < allocated ?w1"
    using new(3) by simp
  from run_operations_heap [OF this, of t ops]
  have later: "heap (run_operations t ops ?w1) (allocated w) =
                 BugInsight_init bt d sev fp ln fix ts now"
    using new(2) by simp
  then have stamp: "timestamp (heap (run_operations t ops ?w1) (allocated w))
                      = (case ts of None \<Rightarrow> now | Some given \<Rightarrow> given)"
    by (simp add: BugInsight_init_def)
  show ?thesis
    using run_operations_heap [OF assms, of t ops] exec_obj_heap [of k w]
      check_for_bugs_obj_heap [of w cancel_at found r] assms
      run_coding_agent_begin_heap [of t problem_statement w]
      exec_obj_heap [of Shutdown w] new later stamp
    by (simp add: orchestrator_shutdown_obj_def)
qed

theorem objects_never_change_witness:
  "0 < allocated (snd (construct sample_high world_init))
   \<and> heap (snd (construct sample_high world_init)) 0 = sample_high
   \<and> heap (run_operations sample_text_ops
        [ControllerCall (InjectInsight 0), DetectorPass (Some 0) [sample_high, sample_medium],
         CodingAgentBegin ''fix'', OrchestratorShutdown]
        (snd (construct sample_high world_init))) 0 = sample_high"
proof -
  have a: "0 < allocated (snd (construct sample_high world_init))"
    by (simp add: construct_def world_init_def)
  have h: "heap (snd (construct sample_high world_init)) 0 = sample_high"
    by (simp add: construct_def world_init_def)
  from objects_never_change [OF a, of sample_text_ops
      "[ControllerCall (InjectInsight 0), DetectorPass (Some 0) [sample_high, sample_medium],
        CodingAgentBegin ''fix'', OrchestratorShutdown]"]
  have "heap (run_operations sample_text_ops
        [ControllerCall (InjectInsight 0), DetectorPass (Some 0) [sample_high, sample_medium],
         CodingAgentBegin ''fix'', OrchestratorShutdown]
        (snd (construct sample_high world_init))) 0
        = heap (snd (construct sample_high world_init)) 0"
    by blast
  with a h show ?thesis by simp
qed

end
